theory Spec2Isabelle
  imports Main "HOL-Library.Sublist"
begin

section \<open>GitHub integration of the portfolio script\<close>

text \<open>
  The development embeds the GitHub part of \<^verbatim>\<open>script.js\<close>: the cached fetch
  \<^verbatim>\<open>fetchGitHubRepos\<close>, the renderers \<^verbatim>\<open>updateProjectStats\<close>,
  \<^verbatim>\<open>updateGitHubStats\<close>, \<^verbatim>\<open>hideGitHubStats\<close>, their driver
  \<^verbatim>\<open>initGitHubIntegration\<close>, and the string function \<^verbatim>\<open>getRepoSlug\<close>.
  The clock (\<^verbatim>\<open>Date.now()\<close>), the transport (\<^verbatim>\<open>fetch\<close>) and the page are
  arguments of the model; the mutable object \<^verbatim>\<open>App.github\<close> is passed in and
  returned.
\<close>

subsection \<open>Repository objects and responses\<close>

text \<open>
  The fields of a parsed response that the script reads. \<open>None\<close> is a field that is
  missing (\<^verbatim>\<open>undefined\<close>) or \<^verbatim>\<open>null\<close>. The counts have the type the API gives
  them, integers; they are far below \<open>2^53\<close>, where the arithmetic of JavaScript numbers
  is exact.
\<close>

record repo =
  name :: "string option"
  stargazers_count :: "int option"
  forks_count :: "int option"
  updated_at :: "string option"

text \<open>
  The body of a response as \<^verbatim>\<open>response.json()\<close> sees it: text that does not parse,
  the value \<^verbatim>\<open>null\<close>, or an object. The API answers with objects; other JSON values are
  outside the model.
\<close>

datatype body = Malformed | JsonNull | JsonObject repo

record response =
  ok :: bool
  status :: nat
  payload :: body

text \<open>\<^verbatim>\<open>fetch(url)\<close> either rejects (no response at all) or resolves to a response.\<close>

datatype fetch_outcome = Rejected | Resolved response

type_synonym network = "string \<Rightarrow> fetch_outcome"

datatype js_error = NetworkFailure | HttpError nat | JsonSyntaxError | TypeError | SelectorSyntaxError

subsection \<open>The cache object\<close>

text \<open>
  \<^verbatim>\<open>App.github\<close>: \<^verbatim>\<open>cache\<close> is a \<^verbatim>\<open>Map\<close>, \<^verbatim>\<open>lastFetch\<close> a timestamp in
  milliseconds. \<^verbatim>\<open>cacheDuration\<close> is never assigned, so it is a constant.
\<close>

record github =
  cache :: "string \<rightharpoonup> repo list"
  lastFetch :: int

definition cacheDuration :: int where
  "cacheDuration = 5 * 60 * 1000"

definition App_github :: github where
  "App_github = \<lparr>cache = Map.empty, lastFetch = 0\<rparr>"

subsection \<open>fetchGitHubRepos\<close>

definition username :: string where
  "username = ''karimhelal''"

text \<open>
  The \<^verbatim>\<open>.then\<close> handler: a response that is not \<^verbatim>\<open>ok\<close> throws, otherwise the body is
  parsed; parsing malformed text rejects.
\<close>

definition on_response :: "response \<Rightarrow> js_error + repo option" where
  "on_response r =
     (if \<not> ok r then Inl (HttpError (status r))
      else case payload r of
             Malformed \<Rightarrow> Inl JsonSyntaxError
           | JsonNull \<Rightarrow> Inr None
           | JsonObject obj \<Rightarrow> Inr (Some obj))"

text \<open>
  One element of \<^verbatim>\<open>promises\<close>: the URL that is requested and the value the promise
  settles to. The \<^verbatim>\<open>.catch\<close> handler turns every rejection into \<^verbatim>\<open>null\<close> (\<open>None\<close>),
  so the promise never rejects.
\<close>

definition fetch_repo :: "network \<Rightarrow> string \<Rightarrow> string \<times> repo option" where
  "fetch_repo net repo =
     (let url = ''https://api.github.com/repos/'' @ username @ ''/'' @ repo;
          chained = (case net url of
                       Rejected \<Rightarrow> Inl NetworkFailure
                     | Resolved r \<Rightarrow> on_response r)
      in (url, case chained of Inl error \<Rightarrow> None | Inr v \<Rightarrow> v))"

text \<open>
  The cache check at the head of the function. An array is truthy in JavaScript, the
  empty one too, so \<^verbatim>\<open>if (cached)\<close> asks only whether the key is present.
\<close>

definition cacheLookup :: "github \<Rightarrow> int \<Rightarrow> repo list option" where
  "cacheLookup g now =
     (if now - lastFetch g < cacheDuration then cache g ''repositories'' else None)"

text \<open>
  The result is the returned array, the URLs requested during the call, in the order of
  the requests, and the cache object after the call. \<^verbatim>\<open>Promise.all\<close> resolves to the
  settled values in the order of \<^verbatim>\<open>promises\<close>. \<open>now\<close> is what \<^verbatim>\<open>Date.now()\<close>
  returns at the start of the call. The function describes one call from its start to
  its completion, with no other call under way in between; the script makes one call
  for each load of the page.
\<close>

definition fetchGitHubRepos ::
  "network \<Rightarrow> int \<Rightarrow> string list \<Rightarrow> github \<Rightarrow> repo list \<times> string list \<times> github" where
  "fetchGitHubRepos net now repositories g =
     (case cacheLookup g now of
        Some cached \<Rightarrow> (cached, [], g)
      | None \<Rightarrow>
          (let promises = map (fetch_repo net) repositories;
               results = map snd promises;
               validResults = map the (filter (\<lambda>result. result \<noteq> None) results)
           in (validResults, map fst promises,
               g\<lparr>cache := (cache g)(''repositories'' \<mapsto> validResults), lastFetch := now\<rparr>)))"

text \<open>A sequence of calls, each with its own transport, clock reading and list.\<close>

fun run_calls :: "(network \<times> int \<times> string list) list \<Rightarrow> github \<Rightarrow> github" where
  "run_calls [] g = g"
| "run_calls ((net, now, repositories) # calls) g =
     run_calls calls (snd (snd (fetchGitHubRepos net now repositories g)))"

text \<open>The two states of the cache at a clock reading.\<close>

definition fresh :: "github \<Rightarrow> int \<Rightarrow> bool" where
  "fresh g now = (cacheLookup g now \<noteq> None)"

definition request_failed :: "fetch_outcome \<Rightarrow> bool" where
  "request_failed out = (case out of Rejected \<Rightarrow> True | Resolved r \<Rightarrow> \<not> ok r)"

subsection \<open>getRepoSlug\<close>

text \<open>
  A string is the list of its code units; the function tells apart only \<open>a\<close>--\<open>z\<close>,
  \<open>0\<close>--\<open>9\<close> and the hyphen. The character class of the first regular expression:
\<close>

definition alnum :: "char \<Rightarrow> bool" where
  "alnum c = (c \<in> set ''abcdefghijklmnopqrstuvwxyz0123456789'')"

text \<open>
  \<^verbatim>\<open>.replace(/[^a-z0-9]+/g, "-")\<close>: scanning from the left, every maximal run of
  code units outside the class becomes one hyphen.
\<close>

function replaceRuns :: "string \<Rightarrow> string" where
  "replaceRuns [] = []"
| "replaceRuns (c # cs) =
     (if alnum c then c # replaceRuns cs
      else CHR ''-'' # replaceRuns (dropWhile (\<lambda>x. \<not> alnum x) cs))"
  by pat_completeness auto
termination
  by (relation "measure length") (auto simp: less_Suc_eq_le length_dropWhile_le)

text \<open>
  \<^verbatim>\<open>.replace(/(^-|-$)/g, "")\<close>: a hyphen at index 0 is removed; the scan goes on
  behind it, and a hyphen that is the last code unit of what remains is removed too.
\<close>

definition trimHyphens :: "string \<Rightarrow> string" where
  "trimHyphens s =
     (let rest = (case s of [] \<Rightarrow> [] | c # cs \<Rightarrow> if c = CHR ''-'' then cs else s)
      in if rest \<noteq> [] \<and> last rest = CHR ''-'' then butlast rest else rest)"

text \<open>
  \<^verbatim>\<open>String.prototype.toLowerCase\<close> belongs to the engine, not to the script, and its
  Unicode tables are not part of the source: it is the argument \<open>toLowerCase\<close>.
\<close>

definition getRepoSlug :: "(string \<Rightarrow> string) \<Rightarrow> string \<Rightarrow> string" where
  "getRepoSlug toLowerCase repoName = trimHyphens (replaceRuns (toLowerCase repoName))"

text \<open>The lower-casing of ASCII, the part of the engine's function that is fixed here.\<close>

definition asciiLower :: "char \<Rightarrow> char" where
  "asciiLower c =
     (case map_of (zip ''ABCDEFGHIJKLMNOPQRSTUVWXYZ'' ''abcdefghijklmnopqrstuvwxyz'') c of
        Some l \<Rightarrow> l
      | None \<Rightarrow> c)"

subsection \<open>The page\<close>

text \<open>
  What the script assigns to \<^verbatim>\<open>textContent\<close>: a string, or a number that the
  browser prints in decimal.
\<close>

datatype content = Text string | Number int

text \<open>
  An element that shows a statistic. \<open>animation\<close> is the target of the animation that
  \<^verbatim>\<open>animateStatNumber\<close> has started on the element, if any; its frames assign
  \<^verbatim>\<open>textContent\<close> later, the last one with \<^verbatim>\<open>Math.floor(target * 1)\<close>.
\<close>

record element =
  textContent :: content
  animation :: "int option"

text \<open>
  A \<^verbatim>\<open>.project-card\<close>: its descendants by id (\<^verbatim>\<open>card.querySelector("#id")\<close>),
  whether it has a \<^verbatim>\<open>.project-content\<close>, and the timestamp shown by its
  \<^verbatim>\<open>.last-updated\<close> element, if it has one.
\<close>

record card =
  byId :: "string \<rightharpoonup> element"
  projectContent :: bool
  lastUpdated :: "string option"

text \<open>
  \<open>StatsMarkup s f n\<close> is the template literal of \<^verbatim>\<open>updateGitHubStats\<close> with the
  three numbers filled in; \<open>Markup\<close> is any other content.
\<close>

datatype markup = Markup string | StatsMarkup int int nat

text \<open>
  The page: the project cards in document order, the elements with an id outside the
  cards, and the content of \<^verbatim>\<open>.github-stats\<close> when the page has that container.
\<close>

record page =
  projectCards :: "card list"
  elsewhere :: "string \<rightharpoonup> element"
  githubStats :: "markup option"

subsection \<open>Rendering\<close>

definition animateStatNumber :: "element \<Rightarrow> int \<Rightarrow> element" where
  "animateStatNumber el target = el\<lparr>animation := Some target\<rparr>"

text \<open>What the element shows once a started animation has run to its last frame.\<close>

definition displayed :: "element \<Rightarrow> content" where
  "displayed el = (case animation el of Some target \<Rightarrow> Number target | None \<Rightarrow> textContent el)"

text \<open>\<^verbatim>\<open>count || 0\<close>: a missing count, and the falsy count 0, give 0.\<close>

definition or0 :: "int option \<Rightarrow> int" where
  "or0 count = (case count of None \<Rightarrow> 0 | Some n \<Rightarrow> if n = 0 then 0 else n)"

text \<open>
  \<^verbatim>\<open>addLastUpdatedInfo\<close> returns at once for a falsy timestamp and for a card that has
  the element already; the new element is attached only to a \<^verbatim>\<open>.project-content\<close>.
  Its text is computed from the timestamp and the clock; the model keeps the timestamp.
\<close>

definition addLastUpdatedInfo :: "card \<Rightarrow> string option \<Rightarrow> card" where
  "addLastUpdatedInfo c updatedAt =
     (case updatedAt of
        None \<Rightarrow> c
      | Some stamp \<Rightarrow>
          if stamp = [] then c
          else if lastUpdated c \<noteq> None then c
          else if projectContent c then c\<lparr>lastUpdated := Some stamp\<rparr>
          else c)"

text \<open>
  The body of the \<^verbatim>\<open>forEach\<close> callback behind its guard; \<^verbatim>\<open>!repo\<close> is false, since
  an element of the array is an object. \<^verbatim>\<open>getRepoSlug\<close> of a
  missing name throws a \<^verbatim>\<open>TypeError\<close>; \<^verbatim>\<open>querySelector\<close> throws on a selector
  that is not valid, and \<^verbatim>\<open>#slug-stars\<close> is not valid exactly when the slug begins
  with a digit. Both happen before the card is touched.
\<close>

definition renderCard :: "(string \<Rightarrow> string) \<Rightarrow> repo \<Rightarrow> card \<Rightarrow> js_error + card" where
  "renderCard toLowerCase r c =
     (case name r of
        None \<Rightarrow> Inl TypeError
      | Some repoName \<Rightarrow>
          (let slug = getRepoSlug toLowerCase repoName
           in if slug \<noteq> [] \<and> hd slug \<in> set ''0123456789'' then Inl SelectorSyntaxError
              else
                (let starsElement = byId c (slug @ ''-stars'');
                     forksElement = byId c (slug @ ''-forks'');
                     c1 = (case starsElement of
                             None \<Rightarrow> c
                           | Some el \<Rightarrow>
                               c\<lparr>byId := (byId c)(slug @ ''-stars'' \<mapsto>
                                    animateStatNumber el (or0 (stargazers_count r)))\<rparr>);
                     c2 = (case forksElement of
                             None \<Rightarrow> c1
                           | Some el \<Rightarrow>
                               c1\<lparr>byId := (byId c1)(slug @ ''-forks'' \<mapsto>
                                    animateStatNumber el (or0 (forks_count r)))\<rparr>)
                 in Inr (addLastUpdatedInfo c2 (updated_at r)))))"

text \<open>
  \<^verbatim>\<open>repoData.forEach((repo, index) => ...)\<close>: an index beyond the cards is skipped;
  an exception ends the loop and leaves the cards as they are at that moment.
\<close>

fun forEachRepo ::
  "(string \<Rightarrow> string) \<Rightarrow> repo list \<Rightarrow> nat \<Rightarrow> card list \<Rightarrow> js_error option \<times> card list" where
  "forEachRepo toLowerCase [] index cards = (None, cards)"
| "forEachRepo toLowerCase (r # rest) index cards =
     (if index \<ge> length cards then forEachRepo toLowerCase rest (Suc index) cards
      else case renderCard toLowerCase r (cards ! index) of
             Inl error \<Rightarrow> (Some error, cards)
           | Inr c \<Rightarrow> forEachRepo toLowerCase rest (Suc index) (cards[index := c]))"

definition updateProjectStats ::
  "(string \<Rightarrow> string) \<Rightarrow> repo list \<Rightarrow> page \<Rightarrow> js_error option \<times> page" where
  "updateProjectStats toLowerCase repoData p =
     (case forEachRepo toLowerCase repoData 0 (projectCards p) of
        (thrown, cards) \<Rightarrow> (thrown, p\<lparr>projectCards := cards\<rparr>))"

definition totalStars :: "repo list \<Rightarrow> int" where
  "totalStars repoData = foldl (\<lambda>sum r. sum + or0 (stargazers_count r)) 0 repoData"

definition totalForks :: "repo list \<Rightarrow> int" where
  "totalForks repoData = foldl (\<lambda>sum r. sum + or0 (forks_count r)) 0 repoData"

definition updateGitHubStats :: "repo list \<Rightarrow> page \<Rightarrow> page" where
  "updateGitHubStats repoData p =
     (case githubStats p of
        None \<Rightarrow> p
      | Some statsContainer \<Rightarrow>
          p\<lparr>githubStats :=
              Some (StatsMarkup (totalStars repoData) (totalForks repoData) (length repoData))\<rparr>)"

text \<open>
  \<^verbatim>\<open>$$('[id$="-stars"], [id$="-forks"]')\<close>: every element of the document whose id
  ends in one of the two suffixes gets the text \<^verbatim>\<open>"-"\<close>.
\<close>

definition hideStat :: "(string \<rightharpoonup> element) \<Rightarrow> (string \<rightharpoonup> element)" where
  "hideStat els =
     (\<lambda>i. if suffix ''-stars'' i \<or> suffix ''-forks'' i
          then map_option (\<lambda>el. el\<lparr>textContent := Text ''-''\<rparr>) (els i)
          else els i)"

definition hideGitHubStats :: "page \<Rightarrow> page" where
  "hideGitHubStats p =
     p\<lparr>projectCards := map (\<lambda>c. c\<lparr>byId := hideStat (byId c)\<rparr>) (projectCards p),
       elsewhere := hideStat (elsewhere p)\<rparr>"

subsection \<open>initGitHubIntegration\<close>

definition repositories :: "string list" where
  "repositories =
     [''Fifa-World-Cup-Qatar-2022'', ''Adidas'', ''Portfolio'', ''datasets'',
      ''E-learning-platform'']"

text \<open>
  The \<^verbatim>\<open>try\<close> block and its \<^verbatim>\<open>catch\<close>: the fallback \<^verbatim>\<open>hideGitHubStats\<close> runs
  when one of the three calls throws.
\<close>

definition initGitHubIntegration ::
  "(string \<Rightarrow> string) \<Rightarrow> network \<Rightarrow> int \<Rightarrow> github \<times> page \<Rightarrow> github \<times> page" where
  "initGitHubIntegration toLowerCase net now st =
     (case st of (g, p) \<Rightarrow>
        (case fetchGitHubRepos net now repositories g of
           (repoData, requests, g') \<Rightarrow>
             (case updateProjectStats toLowerCase repoData p of
                (Some error, p1) \<Rightarrow> (g', hideGitHubStats p1)
              | (None, p1) \<Rightarrow> (g', updateGitHubStats repoData p1))))"

subsection \<open>Vocabulary of the properties\<close>

text \<open>The cache holds nothing but the one entry of the whole batch.\<close>

definition single_entry :: "github \<Rightarrow> bool" where
  "single_entry g = (dom (cache g) \<subseteq> {''repositories''})"

text \<open>Two neighbouring code units are not both hyphens.\<close>

definition apart :: "char \<Rightarrow> char \<Rightarrow> bool" where
  "apart a b = (\<not> (a = CHR ''-'' \<and> b = CHR ''-''))"

subsection \<open>Sample data\<close>

definition adidas_repo :: repo where
  "adidas_repo =
     \<lparr>name = Some ''Adidas'', stargazers_count = Some 5, forks_count = Some 1,
      updated_at = Some ''2025-03-01T10:00:00Z''\<rparr>"

definition portfolio_repo :: repo where
  "portfolio_repo =
     \<lparr>name = Some ''Portfolio'', stargazers_count = None, forks_count = Some 2,
      updated_at = None\<rparr>"

text \<open>A transport with no connection, one that only fails, and one that answers twice.\<close>

definition offline :: network where
  "offline url = Rejected"

definition failing_net :: network where
  "failing_net url =
     (if url = ''https://api.github.com/repos/karimhelal/Adidas''
        then Resolved \<lparr>ok = False, status = 404, payload = Malformed\<rparr>
      else if url = ''https://api.github.com/repos/karimhelal/Portfolio''
        then Resolved \<lparr>ok = False, status = 500, payload = JsonObject portfolio_repo\<rparr>
      else Rejected)"

definition mixed_net :: network where
  "mixed_net url =
     (if url = ''https://api.github.com/repos/karimhelal/Adidas''
        then Resolved \<lparr>ok = True, status = 200, payload = JsonObject adidas_repo\<rparr>
      else if url = ''https://api.github.com/repos/karimhelal/Portfolio''
        then Resolved \<lparr>ok = True, status = 200, payload = JsonObject portfolio_repo\<rparr>
      else if url = ''https://api.github.com/repos/karimhelal/datasets''
        then Resolved \<lparr>ok = False, status = 404, payload = Malformed\<rparr>
      else Rejected)"

definition stat :: "string \<Rightarrow> element" where
  "stat s = \<lparr>textContent = Text s, animation = None\<rparr>"

definition sample_page :: page where
  "sample_page =
     \<lparr>projectCards =
        [\<lparr>byId = [''adidas-stars'' \<mapsto> stat ''0'', ''adidas-forks'' \<mapsto> stat ''0''],
          projectContent = True, lastUpdated = None\<rparr>,
         \<lparr>byId = [''portfolio-stars'' \<mapsto> stat ''0'', ''portfolio-forks'' \<mapsto> stat ''0''],
          projectContent = True, lastUpdated = None\<rparr>],
      elsewhere = Map.empty,
      githubStats = Some (Markup [])\<rparr>"

text \<open>
  A repository object with a name and nothing else, a transport on which every listed
  repository answers with such an object, and the same transport with the first request
  of the list answered by 404.
\<close>

definition bare_repo :: "string \<Rightarrow> repo" where
  "bare_repo nm =
     \<lparr>name = Some nm, stargazers_count = None, forks_count = None, updated_at = None\<rparr>"

definition full_net :: network where
  "full_net url =
     (case map_of (map (\<lambda>nm. (''https://api.github.com/repos/karimhelal/'' @ nm, nm))
                    repositories) url of
        Some nm \<Rightarrow> Resolved \<lparr>ok = True, status = 200, payload = JsonObject (bare_repo nm)\<rparr>
      | None \<Rightarrow> Rejected)"

definition gappy_net :: network where
  "gappy_net url =
     (if url = ''https://api.github.com/repos/karimhelal/Fifa-World-Cup-Qatar-2022''
        then Resolved \<lparr>ok = False, status = 404, payload = Malformed\<rparr>
      else full_net url)"

text \<open>
  A page with one card for each listed repository, in the order of the list, each card
  holding the star and the fork element of its own repository with a static text.
\<close>

definition stat_card :: "string \<Rightarrow> card" where
  "stat_card slug =
     \<lparr>byId = [slug @ ''-stars'' \<mapsto> stat ''12'', slug @ ''-forks'' \<mapsto> stat ''7''],
      projectContent = True, lastUpdated = None\<rparr>"

definition listed_page :: page where
  "listed_page =
     \<lparr>projectCards =
        map stat_card [''fifa-world-cup-qatar-2022'', ''adidas'', ''portfolio'', ''datasets'',
                       ''e-learning-platform''],
      elsewhere = Map.empty,
      githubStats = Some (Markup [])\<rparr>"

section \<open>Properties of the fetch and its cache\<close>

lemmas fetch_eval = fetchGitHubRepos_def cacheLookup_def cacheDuration_def App_github_def
  fetch_repo_def on_response_def username_def repositories_def Let_def

lemma fetch_hit:
  "cacheLookup g now = Some cached \<Longrightarrow> fetchGitHubRepos net now rs g = (cached, [], g)"
  by (simp add: fetchGitHubRepos_def)

lemma fetch_miss:
  "cacheLookup g now = None \<Longrightarrow>
   fetchGitHubRepos net now rs g =
     (map the (filter (\<lambda>result. result \<noteq> None) (map (snd \<circ> fetch_repo net) rs)),
      map (fst \<circ> fetch_repo net) rs,
      g\<lparr>cache := (cache g)(''repositories'' \<mapsto>
             map the (filter (\<lambda>result. result \<noteq> None) (map (snd \<circ> fetch_repo net) rs))),
        lastFetch := now\<rparr>)"
  by (simp add: fetchGitHubRepos_def Let_def)

lemma fresh_iff:
  "fresh g t \<longleftrightarrow> t - lastFetch g < cacheDuration \<and> cache g ''repositories'' \<noteq> None"
  by (simp add: fresh_def cacheLookup_def)

lemma stale_lookup: "\<not> fresh g now \<Longrightarrow> cacheLookup g now = None"
  by (simp add: fresh_def)

text \<open>After any call the entry of the cache is the array that the call returned.\<close>

lemma lookup_after_call:
  assumes "fetchGitHubRepos net now rs g = (res, reqs, g')"
  shows "cache g' ''repositories'' = Some res"
proof (cases "cacheLookup g now")
  case None
  with assms show ?thesis by (auto simp: fetch_miss)
next
  case (Some c)
  with assms have "res = c" "g' = g" by (simp_all add: fetch_hit)
  moreover from Some have "cache g ''repositories'' = Some c"
    by (simp add: cacheLookup_def split: if_splits)
  ultimately show ?thesis by simp
qed

lemma lastFetch_after_fetch:
  "\<not> fresh g now \<Longrightarrow> lastFetch (snd (snd (fetchGitHubRepos net now rs g))) = now"
  by (simp add: fetch_miss stale_lookup)

lemma fetched_mixed:
  "fst (fetchGitHubRepos mixed_net 1700000000000 repositories App_github) =
     [adidas_repo, portfolio_repo]"
  by (simp add: fetch_eval mixed_net_def)

lemma fetched_failing:
  "fst (fetchGitHubRepos failing_net 1700000000000 repositories App_github) = []"
  by (simp add: fetch_eval failing_net_def)

lemma stale_initially: "\<not> fresh App_github now"
  by (simp add: fresh_iff App_github_def)

text \<open>
  C1. A call made while \<open>now - lastFetch < cacheDuration\<close> holds for the cache that a
  completed call has left behind requests nothing and returns the array of that call;
  the cache object stays as it is. When the first call went to the network,
  \<open>lastFetch\<close> is its clock reading (\<open>lastFetch_after_fetch\<close>).
\<close>

theorem second_call_within_window:
  assumes first: "fetchGitHubRepos net1 now1 rs g0 = (res1, reqs1, g1)"
    and window: "now2 - lastFetch g1 < cacheDuration"
  shows "fetchGitHubRepos net2 now2 rs g1 = (res1, [], g1)"
proof -
  have "cache g1 ''repositories'' = Some res1"
    using first by (rule lookup_after_call)
  with window have "cacheLookup g1 now2 = Some res1"
    by (simp add: cacheLookup_def)
  then show ?thesis by (rule fetch_hit)
qed

theorem second_call_within_window_witness:
  "1700000240000 -
     lastFetch (snd (snd (fetchGitHubRepos mixed_net 1700000000000 repositories App_github)))
     < cacheDuration \<and>
   fetchGitHubRepos offline 1700000240000 repositories
       (snd (snd (fetchGitHubRepos mixed_net 1700000000000 repositories App_github))) =
     ([adidas_repo, portfolio_repo], [],
      snd (snd (fetchGitHubRepos mixed_net 1700000000000 repositories App_github)))"
proof -
  let ?first = "fetchGitHubRepos mixed_net 1700000000000 repositories App_github"
  have call: "?first = ([adidas_repo, portfolio_repo], fst (snd ?first), snd (snd ?first))"
    using fetched_mixed by (simp add: prod_eq_iff)
  have window: "1700000240000 - lastFetch (snd (snd ?first)) < cacheDuration"
    by (simp add: lastFetch_after_fetch stale_initially cacheDuration_def)
  from window second_call_within_window [OF call window] show ?thesis by simp
qed

lemma failed_settles_null:
  "request_failed (net (''https://api.github.com/repos/karimhelal/'' @ r)) \<Longrightarrow>
   snd (fetch_repo net r) = None"
  by (auto simp: fetch_repo_def request_failed_def on_response_def username_def Let_def
      split: fetch_outcome.splits)

text \<open>
  C2. A call that goes to the network and finds every request failing, by a rejected
  \<^verbatim>\<open>fetch\<close> or by a response that is not \<^verbatim>\<open>ok\<close>, returns the empty array. Each promise
  of the batch settles to \<^verbatim>\<open>null\<close>; none rejects, so the call has no exception to pass on.
\<close>

theorem all_requests_fail_empty:
  assumes stale: "\<not> fresh g now"
    and failed: "\<forall>r \<in> set rs.
                   request_failed (net (''https://api.github.com/repos/karimhelal/'' @ r))"
  shows "fst (fetchGitHubRepos net now rs g) = [] \<and>
         (\<forall>r \<in> set rs. snd (fetch_repo net r) = None)"
proof
  show nulls: "\<forall>r \<in> set rs. snd (fetch_repo net r) = None"
    using failed by (simp add: failed_settles_null)
  then have "filter (\<lambda>result. result \<noteq> None) (map (snd \<circ> fetch_repo net) rs) = []"
    by (simp add: filter_empty_conv)
  with stale show "fst (fetchGitHubRepos net now rs g) = []"
    by (simp add: fetch_miss stale_lookup)
qed

theorem all_requests_fail_empty_witness:
  "\<not> fresh App_github 1700000000000 \<and>
   request_failed (failing_net ''https://api.github.com/repos/karimhelal/Adidas'') \<and>
   request_failed (failing_net ''https://api.github.com/repos/karimhelal/datasets'') \<and>
   fst (fetchGitHubRepos failing_net 1700000000000 repositories App_github) = [] \<and>
   snd (fetch_repo failing_net ''Portfolio'') = None"
proof -
  have failed: "\<forall>r \<in> set repositories.
      request_failed (failing_net (''https://api.github.com/repos/karimhelal/'' @ r))"
    by (simp add: repositories_def request_failed_def failing_net_def)
  note both = all_requests_fail_empty [OF stale_initially failed, of 1700000000000]
  from both have empty: "fst (fetchGitHubRepos failing_net 1700000000000 repositories App_github) = []"
    by (rule conjunct1)
  from both have null: "snd (fetch_repo failing_net ''Portfolio'') = None"
    by (simp add: repositories_def)
  have "request_failed (failing_net ''https://api.github.com/repos/karimhelal/Adidas'')"
    and "request_failed (failing_net ''https://api.github.com/repos/karimhelal/datasets'')"
    by (simp_all add: request_failed_def failing_net_def)
  with empty null stale_initially show ?thesis by blast
qed

text \<open>
  C8. A call made when the window has elapsed (\<open>now - lastFetch\<close> is no longer below
  \<open>cacheDuration\<close>) or when nothing has been fetched before (the cache has no entry)
  requests one URL for each name of the list, in the order of the list, and each URL is
  \<^verbatim>\<open>https://api.github.com/repos/karimhelal/\<close> followed by the name.
\<close>

theorem stale_call_requests_each:
  assumes "cacheDuration \<le> now - lastFetch g \<or> cache g ''repositories'' = None"
  shows "fst (snd (fetchGitHubRepos net now rs g)) =
           map (\<lambda>repo. ''https://api.github.com/repos/karimhelal/'' @ repo) rs \<and>
         length (fst (snd (fetchGitHubRepos net now rs g))) = length rs"
proof -
  from assms have "cacheLookup g now = None"
    by (auto simp: cacheLookup_def)
  then have "fst (snd (fetchGitHubRepos net now rs g)) =
           map (\<lambda>repo. ''https://api.github.com/repos/karimhelal/'' @ repo) rs"
    by (simp add: fetch_miss fetch_repo_def username_def Let_def comp_def)
  then show ?thesis by simp
qed

theorem stale_call_requests_each_witness:
  "cacheDuration \<le> 1700000300000 -
     lastFetch (snd (snd (fetchGitHubRepos mixed_net 1700000000000 repositories App_github))) \<and>
   fst (snd (fetchGitHubRepos offline 1700000300000 repositories
       (snd (snd (fetchGitHubRepos mixed_net 1700000000000 repositories App_github))))) =
     [''https://api.github.com/repos/karimhelal/Fifa-World-Cup-Qatar-2022'',
      ''https://api.github.com/repos/karimhelal/Adidas'',
      ''https://api.github.com/repos/karimhelal/Portfolio'',
      ''https://api.github.com/repos/karimhelal/datasets'',
      ''https://api.github.com/repos/karimhelal/E-learning-platform'']"
proof -
  let ?g = "snd (snd (fetchGitHubRepos mixed_net 1700000000000 repositories App_github))"
  have elapsed: "cacheDuration \<le> 1700000300000 - lastFetch ?g"
    by (simp add: lastFetch_after_fetch stale_initially cacheDuration_def)
  then have "cacheDuration \<le> 1700000300000 - lastFetch ?g \<or> cache ?g ''repositories'' = None"
    by (rule disjI1)
  from stale_call_requests_each [OF this, of offline repositories]
  have "fst (snd (fetchGitHubRepos offline 1700000300000 repositories ?g)) =
          map (\<lambda>repo. ''https://api.github.com/repos/karimhelal/'' @ repo) repositories"
    by (rule conjunct1)
  also have "\<dots> =
     [''https://api.github.com/repos/karimhelal/Fifa-World-Cup-Qatar-2022'',
      ''https://api.github.com/repos/karimhelal/Adidas'',
      ''https://api.github.com/repos/karimhelal/Portfolio'',
      ''https://api.github.com/repos/karimhelal/datasets'',
      ''https://api.github.com/repos/karimhelal/E-learning-platform'']"
    by (simp add: repositories_def)
  finally show ?thesis using elapsed by (rule conjI [rotated])
qed

lemma survivors_map:
  "map the (filter (\<lambda>result. result \<noteq> None) (map f rs)) =
   map (\<lambda>r. the (f r)) (filter (\<lambda>r. f r \<noteq> None) rs)"
  by (induction rs) simp_all

lemma some_of_survivors:
  "map Some (map the (filter (\<lambda>result. result \<noteq> None) xs)) =
   filter (\<lambda>result. result \<noteq> None) xs"
  by (induction xs) auto

text \<open>
  C9. On a call that goes to the network, the returned array is made of the values of
  the names whose promise did not settle to \<^verbatim>\<open>null\<close>, taken in the order in which
  those names stand in the input list; it is the list of settled values with the
  \<^verbatim>\<open>null\<close> entries left out and nothing moved.
\<close>

theorem survivors_in_input_order:
  assumes "\<not> fresh g now"
  shows "fst (fetchGitHubRepos net now rs g) =
           map (\<lambda>repo. the (snd (fetch_repo net repo)))
               (filter (\<lambda>repo. snd (fetch_repo net repo) \<noteq> None) rs) \<and>
         subseq (map Some (fst (fetchGitHubRepos net now rs g)))
                (map (\<lambda>repo. snd (fetch_repo net repo)) rs)"
proof
  have eq: "fst (fetchGitHubRepos net now rs g) =
      map the (filter (\<lambda>result. result \<noteq> None) (map (snd \<circ> fetch_repo net) rs))"
    using assms by (simp add: fetch_miss stale_lookup)
  then show "fst (fetchGitHubRepos net now rs g) =
           map (\<lambda>repo. the (snd (fetch_repo net repo)))
               (filter (\<lambda>repo. snd (fetch_repo net repo) \<noteq> None) rs)"
    using survivors_map [of "snd \<circ> fetch_repo net" rs] by (simp only: comp_def)
  have "map Some (fst (fetchGitHubRepos net now rs g)) =
      filter (\<lambda>result. result \<noteq> None) (map (\<lambda>repo. snd (fetch_repo net repo)) rs)"
    unfolding eq some_of_survivors by (simp only: comp_def)
  then show "subseq (map Some (fst (fetchGitHubRepos net now rs g)))
                (map (\<lambda>repo. snd (fetch_repo net repo)) rs)"
    by simp
qed

theorem survivors_in_input_order_witness:
  "\<not> fresh App_github 1700000000000 \<and>
   filter (\<lambda>repo. snd (fetch_repo mixed_net repo) \<noteq> None) repositories =
     [''Adidas'', ''Portfolio''] \<and>
   fst (fetchGitHubRepos mixed_net 1700000000000 repositories App_github) =
     [adidas_repo, portfolio_repo]"
proof -
  have names: "filter (\<lambda>repo. snd (fetch_repo mixed_net repo) \<noteq> None) repositories =
      [''Adidas'', ''Portfolio'']"
    by (simp add: fetch_eval mixed_net_def)
  have "fst (fetchGitHubRepos mixed_net 1700000000000 repositories App_github) =
      map (\<lambda>repo. the (snd (fetch_repo mixed_net repo)))
        (filter (\<lambda>repo. snd (fetch_repo mixed_net repo) \<noteq> None) repositories)"
    using survivors_in_input_order [OF stale_initially] by (rule conjunct1)
  also have "\<dots> = [adidas_repo, portfolio_repo]"
    unfolding names by (simp add: fetch_eval mixed_net_def)
  finally show ?thesis using names stale_initially by blast
qed

lemma fresh_kept:
  assumes call: "fetchGitHubRepos net now rs g = (res, reqs, g')" and f: "fresh g t"
  shows "fresh g' t"
proof (cases "cacheLookup g now")
  case (Some c)
  with call have "g' = g" by (simp add: fetch_hit)
  with f show ?thesis by simp
next
  case None
  from f have "t - lastFetch g < cacheDuration" and "cache g ''repositories'' \<noteq> None"
    by (simp_all add: fresh_iff)
  with None have "cacheDuration \<le> now - lastFetch g"
    by (simp add: cacheLookup_def split: if_splits)
  with \<open>t - lastFetch g < cacheDuration\<close> have "t - now < cacheDuration"
    by (simp add: cacheDuration_def)
  moreover from None call have "lastFetch g' = now"
    by (auto simp: fetch_miss)
  moreover have "cache g' ''repositories'' = Some res"
    using call by (rule lookup_after_call)
  ultimately show ?thesis by (simp add: fresh_iff)
qed

text \<open>
  C4. Take any call. If it found the cache stale, the cache is fresh afterwards at every
  clock reading less than \<open>cacheDuration\<close> past the call, and a call at such a reading
  gets the stored array back without a request, whatever that array is, the empty one
  included. A call never turns a cache that is fresh at some reading into one that is
  stale at that reading. And a cache that is fresh at one reading and stale at another
  is stale at the later one, with the full window gone by since \<open>lastFetch\<close>.
\<close>

theorem cache_state_machine:
  assumes call: "fetchGitHubRepos net now rs g = (res, reqs, g')"
  shows "(\<not> fresh g now \<longrightarrow>
            (\<forall>t. t - now < cacheDuration \<longrightarrow>
               fresh g' t \<and> fetchGitHubRepos net' t rs' g' = (res, [], g'))) \<and>
         (\<forall>t. fresh g t \<longrightarrow> fresh g' t) \<and>
         (\<forall>t t'. fresh g' t \<and> \<not> fresh g' t' \<longrightarrow>
            t < t' \<and> cacheDuration \<le> t' - lastFetch g')"
proof (intro conjI impI allI)
  fix t
  assume stale: "\<not> fresh g now" and t: "t - now < cacheDuration"
  from stale have none: "cacheLookup g now = None" by (simp add: fresh_def)
  with call have "lastFetch g' = now" by (auto simp: fetch_miss)
  moreover have entry: "cache g' ''repositories'' = Some res"
    using call by (rule lookup_after_call)
  ultimately have look: "cacheLookup g' t = Some res"
    using t by (simp add: cacheLookup_def)
  then show "fresh g' t" by (simp add: fresh_def)
  from look show "fetchGitHubRepos net' t rs' g' = (res, [], g')" by (rule fetch_hit)
next
  fix t
  assume "fresh g t"
  with call show "fresh g' t" by (rule fresh_kept)
next
  fix t t'
  assume "fresh g' t \<and> \<not> fresh g' t'"
  then show "t < t'" by (auto simp: fresh_iff)
next
  fix t t'
  assume "fresh g' t \<and> \<not> fresh g' t'"
  then show "cacheDuration \<le> t' - lastFetch g'" by (auto simp: fresh_iff)
qed

theorem cache_state_machine_witness:
  "\<not> fresh App_github 1700000000000 \<and>
   fst (fetchGitHubRepos failing_net 1700000000000 repositories App_github) = [] \<and>
   fresh (snd (snd (fetchGitHubRepos failing_net 1700000000000 repositories App_github)))
     1700000299999 \<and>
   fetchGitHubRepos mixed_net 1700000299999 repositories
       (snd (snd (fetchGitHubRepos failing_net 1700000000000 repositories App_github))) =
     ([], [], snd (snd (fetchGitHubRepos failing_net 1700000000000 repositories App_github))) \<and>
   \<not> fresh (snd (snd (fetchGitHubRepos failing_net 1700000000000 repositories App_github)))
     1700000300000 \<and>
   cacheDuration \<le> 1700000300000 -
     lastFetch (snd (snd (fetchGitHubRepos failing_net 1700000000000 repositories App_github)))"
proof -
  let ?first = "fetchGitHubRepos failing_net 1700000000000 repositories App_github"
  let ?g = "snd (snd ?first)"
  have call: "?first = ([], fst (snd ?first), ?g)"
    using fetched_failing by (simp add: prod_eq_iff)
  note machine = cache_state_machine [OF call, of mixed_net repositories]
  have inside: "1700000299999 - 1700000000000 < cacheDuration"
    by (simp add: cacheDuration_def)
  from machine stale_initially inside
  have hit: "fresh ?g 1700000299999 \<and>
      fetchGitHubRepos mixed_net 1700000299999 repositories ?g = ([], [], ?g)"
    by blast
  have "lastFetch ?g = 1700000000000"
    by (simp add: lastFetch_after_fetch stale_initially)
  then have late: "\<not> fresh ?g 1700000300000"
    by (simp add: fresh_iff cacheDuration_def)
  from machine hit late have "cacheDuration \<le> 1700000300000 - lastFetch ?g"
    by blast
  with hit late stale_initially fetched_failing show ?thesis by blast
qed

lemma single_entry_call:
  assumes "single_entry g"
  shows "cache (snd (snd (fetchGitHubRepos net now rs g))) =
           [''repositories'' \<mapsto> fst (fetchGitHubRepos net now rs g)]"
proof (cases "cacheLookup g now")
  case None
  have "(cache g)(''repositories'' \<mapsto> v) = [''repositories'' \<mapsto> v]" for v
    using assms by (auto simp: single_entry_def fun_eq_iff)
  with None show ?thesis by (simp add: fetch_miss)
next
  case (Some c)
  then have "cache g ''repositories'' = Some c"
    by (simp add: cacheLookup_def split: if_splits)
  with assms have "cache g = [''repositories'' \<mapsto> c]"
    by (auto simp: single_entry_def fun_eq_iff)
  with Some show ?thesis by (simp add: fetch_hit)
qed

lemma single_entry_kept:
  "single_entry g \<Longrightarrow> single_entry (snd (snd (fetchGitHubRepos net now rs g)))"
  by (simp add: single_entry_call single_entry_def)

lemma single_entry_run: "single_entry g \<Longrightarrow> single_entry (run_calls calls g)"
  by (induction calls g rule: run_calls.induct) (simp_all add: single_entry_kept)

text \<open>
  C5. After any sequence of calls from the initial object, the cache has no key other
  than \<^verbatim>\<open>"repositories"\<close>, hence at most one entry and none for a single repository;
  and after one more call the cache is exactly that key bound to the array the call
  returned: a fetch puts its whole batch in the place of what was stored.
\<close>

theorem one_cache_entry:
  "dom (cache (run_calls calls App_github)) \<subseteq> {''repositories''} \<and>
   card (dom (cache (run_calls calls App_github))) \<le> 1 \<and>
   cache (snd (snd (fetchGitHubRepos net now rs (run_calls calls App_github)))) =
     [''repositories'' \<mapsto> fst (fetchGitHubRepos net now rs (run_calls calls App_github))]"
proof -
  have "single_entry App_github" by (simp add: single_entry_def App_github_def)
  then have inv: "single_entry (run_calls calls App_github)" by (rule single_entry_run)
  then have sub: "dom (cache (run_calls calls App_github)) \<subseteq> {''repositories''}"
    by (simp add: single_entry_def)
  then have "card (dom (cache (run_calls calls App_github))) \<le> card {''repositories''}"
    by (intro card_mono) simp_all
  with sub inv show ?thesis by (simp add: single_entry_call)
qed

theorem one_cache_entry_witness:
  "dom (cache (run_calls [(mixed_net, 1700000000000, repositories),
                          (failing_net, 1700000400000, [''Adidas''])] App_github))
     \<subseteq> {''repositories''} \<and>
   cache (run_calls [(mixed_net, 1700000000000, repositories),
                     (failing_net, 1700000400000, [''Adidas''])] App_github) ''Adidas'' = None \<and>
   cache (run_calls [(mixed_net, 1700000000000, repositories),
                     (failing_net, 1700000400000, [''Adidas''])] App_github) ''repositories''
     = Some []"
proof -
  let ?calls = "[(mixed_net, 1700000000000, repositories)]"
  have run: "run_calls [(mixed_net, 1700000000000, repositories),
                        (failing_net, 1700000400000, [''Adidas''])] App_github =
      snd (snd (fetchGitHubRepos failing_net 1700000400000 [''Adidas'']
        (run_calls ?calls App_github)))"
    by simp
  have "lastFetch (run_calls ?calls App_github) = 1700000000000"
    by (simp add: lastFetch_after_fetch stale_initially)
  then have stale: "\<not> fresh (run_calls ?calls App_github) 1700000400000"
    by (simp add: fresh_iff cacheDuration_def)
  have failed: "\<forall>r \<in> set [''Adidas''].
      request_failed (failing_net (''https://api.github.com/repos/karimhelal/'' @ r))"
    by (simp add: request_failed_def failing_net_def)
  have empty: "fst (fetchGitHubRepos failing_net 1700000400000 [''Adidas'']
      (run_calls ?calls App_github)) = []"
    using stale failed by (simp add: fetch_miss stale_lookup failed_settles_null)
  note one = one_cache_entry [of ?calls failing_net 1700000400000 "[''Adidas'']"]
  from one have c: "cache (snd (snd (fetchGitHubRepos failing_net 1700000400000 [''Adidas'']
        (run_calls ?calls App_github)))) = [''repositories'' \<mapsto> []]"
    unfolding empty by (rule conjunct2 [THEN conjunct2])
  show ?thesis unfolding run c by simp
qed

section \<open>Properties of getRepoSlug\<close>

lemma alnum_not_hyphen: "alnum c \<Longrightarrow> c \<noteq> CHR ''-''"
  by (auto simp: alnum_def)

lemma slug_alphabet:
  "{c. alnum c \<or> c = CHR ''-''} = set ''abcdefghijklmnopqrstuvwxyz0123456789-''"
  by (auto simp: alnum_def)

lemma replaceRuns_chars: "set (replaceRuns s) \<subseteq> {c. alnum c \<or> c = CHR ''-''}"
  by (induction s rule: replaceRuns.induct) auto

lemma dropWhile_alnum_head:
  "dropWhile (\<lambda>x. \<not> alnum x) cs = [] \<or> alnum (hd (dropWhile (\<lambda>x. \<not> alnum x) cs))"
  using hd_dropWhile [of "\<lambda>x. \<not> alnum x" cs] by auto

lemma replaceRuns_head:
  "xs = [] \<or> alnum (hd xs) \<Longrightarrow> replaceRuns xs = [] \<or> hd (replaceRuns xs) \<noteq> CHR ''-''"
  by (cases xs) (auto simp: alnum_not_hyphen)

text \<open>The first replacement leaves no two hyphens side by side.\<close>

lemma replaceRuns_apart: "successively apart (replaceRuns s)"
proof (induction s rule: replaceRuns.induct)
  case 1
  show ?case by simp
next
  case (2 c cs)
  show ?case
  proof (cases "alnum c")
    case True
    with 2 show ?thesis by (auto simp: successively_Cons alnum_not_hyphen apart_def)
  next
    case False
    have "replaceRuns (dropWhile (\<lambda>x. \<not> alnum x) cs) = [] \<or>
          hd (replaceRuns (dropWhile (\<lambda>x. \<not> alnum x) cs)) \<noteq> CHR ''-''"
      by (rule replaceRuns_head) (rule dropWhile_alnum_head)
    with False 2 show ?thesis by (auto simp: successively_Cons apart_def)
  qed
qed

lemma trim_set: "set (trimHyphens s) \<subseteq> set s"
  by (auto simp: trimHyphens_def Let_def split: list.splits dest: in_set_butlastD)

lemma successively_butlast: "successively P xs \<Longrightarrow> successively P (butlast xs)"
  by (induction xs rule: rev_induct) (auto simp: successively_append_iff)

lemma hd_butlast_keep: "butlast xs \<noteq> [] \<Longrightarrow> hd (butlast xs) = hd xs"
  by (cases xs) (auto split: if_splits)

lemma trim_apart: "successively apart s \<Longrightarrow> successively apart (trimHyphens s)"
  by (auto simp: trimHyphens_def Let_def successively_Cons successively_butlast
      hd_butlast_keep split: list.splits)

lemma prefix_single: "prefix [h] xs \<longleftrightarrow> xs \<noteq> [] \<and> hd xs = h"
  by (cases xs) auto

lemma suffix_single: "suffix [h] xs \<longleftrightarrow> xs \<noteq> [] \<and> last xs = h"
  by (cases xs rule: rev_cases) auto

lemma apart_last_butlast:
  assumes "successively apart xs" and "xs \<noteq> []" and "last xs = CHR ''-''"
  shows "butlast xs = [] \<or> last (butlast xs) \<noteq> CHR ''-''"
proof -
  from assms(2,3) have "xs = butlast xs @ [CHR ''-'']"
    using append_butlast_last_id [of xs] by simp
  with assms(1) have "successively apart (butlast xs @ [CHR ''-''])" by simp
  then show ?thesis
    by (cases "butlast xs" rule: rev_cases) (auto simp: successively_append_iff apart_def)
qed

lemma trim_no_lead: "successively apart s \<Longrightarrow> \<not> prefix ''-'' (trimHyphens s)"
  by (cases s)
     (auto simp: trimHyphens_def Let_def prefix_single successively_Cons hd_butlast_keep
        apart_def)

lemma trim_no_trail:
  assumes "successively apart s"
  shows "\<not> suffix ''-'' (trimHyphens s)"
proof -
  define rest where "rest = (case s of [] \<Rightarrow> [] | c # cs \<Rightarrow> if c = CHR ''-'' then cs else s)"
  have r: "successively apart rest"
    using assms by (auto simp: rest_def successively_Cons split: list.splits)
  have t: "trimHyphens s = (if rest \<noteq> [] \<and> last rest = CHR ''-'' then butlast rest else rest)"
    by (simp add: trimHyphens_def rest_def)
  show ?thesis
    using apart_last_butlast [OF r] by (auto simp: t suffix_single)
qed

lemma apart_no_pair: "successively apart xs \<Longrightarrow> \<not> sublist ''--'' xs"
  by (auto simp: sublist_def successively_append_iff successively_Cons apart_def)

text \<open>A string that already has the shape of a slug passes both replacements unchanged.\<close>

lemma replaceRuns_fixed:
  "set t \<subseteq> {c. alnum c \<or> c = CHR ''-''} \<Longrightarrow> successively apart t \<Longrightarrow> replaceRuns t = t"
proof (induction t rule: replaceRuns.induct)
  case 1
  show ?case by simp
next
  case (2 c cs)
  show ?case
  proof (cases "alnum c")
    case True
    with 2 show ?thesis by (auto simp: successively_Cons)
  next
    case False
    with "2.prems" have c: "c = CHR ''-''" by simp
    with "2.prems" have "cs = [] \<or> alnum (hd cs)"
      by (cases cs) (auto simp: successively_Cons apart_def)
    then have d: "dropWhile (\<lambda>x. \<not> alnum x) cs = cs"
      by (cases cs) auto
    from "2.prems" have "set cs \<subseteq> {c. alnum c \<or> c = CHR ''-''}" and "successively apart cs"
      by (auto simp: successively_Cons)
    with "2.IH"(2) False d have "replaceRuns cs = cs" by simp
    with False c d show ?thesis by simp
  qed
qed

lemma trim_fixed:
  "\<not> prefix ''-'' t \<Longrightarrow> \<not> suffix ''-'' t \<Longrightarrow> trimHyphens t = t"
  by (cases t) (auto simp: trimHyphens_def Let_def prefix_single suffix_single)

lemma asciiLower_other:
  assumes "c \<notin> set ''ABCDEFGHIJKLMNOPQRSTUVWXYZ''"
  shows "asciiLower c = c"
proof -
  have "length ''ABCDEFGHIJKLMNOPQRSTUVWXYZ'' = length ''abcdefghijklmnopqrstuvwxyz''"
    by simp
  from map_of_zip_is_None [OF this] assms
  have "map_of (zip ''ABCDEFGHIJKLMNOPQRSTUVWXYZ'' ''abcdefghijklmnopqrstuvwxyz'') c = None"
    by blast
  then show ?thesis by (simp only: asciiLower_def option.case)
qed

lemma asciiLower_fixed:
  "c \<in> set ''abcdefghijklmnopqrstuvwxyz0123456789-'' \<Longrightarrow> asciiLower c = c"
  by (rule asciiLower_other) auto

text \<open>
  C10. Whatever the engine's \<^verbatim>\<open>toLowerCase\<close> returns, the slug consists of lowercase
  ASCII letters, digits and hyphens, neither begins nor ends with a hyphen, and has no
  two hyphens in a row. Since \<^verbatim>\<open>toLowerCase\<close> leaves a string of such code units as it
  is, the function is idempotent.
\<close>

theorem getRepoSlug_shape:
  "set (getRepoSlug toLowerCase s) \<subseteq> set ''abcdefghijklmnopqrstuvwxyz0123456789-'' \<and>
   \<not> prefix ''-'' (getRepoSlug toLowerCase s) \<and>
   \<not> suffix ''-'' (getRepoSlug toLowerCase s) \<and>
   \<not> sublist ''--'' (getRepoSlug toLowerCase s) \<and>
   ((\<forall>t. set t \<subseteq> set ''abcdefghijklmnopqrstuvwxyz0123456789-'' \<longrightarrow> toLowerCase t = t) \<longrightarrow>
      getRepoSlug toLowerCase (getRepoSlug toLowerCase s) = getRepoSlug toLowerCase s)"
proof -
  let ?r = "replaceRuns (toLowerCase s)"
  let ?g = "getRepoSlug toLowerCase s"
  have g: "?g = trimHyphens ?r" by (simp add: getRepoSlug_def)
  have chars: "set ?g \<subseteq> {c. alnum c \<or> c = CHR ''-''}"
    unfolding g using trim_set [of ?r] replaceRuns_chars [of "toLowerCase s"] by blast
  have single: "successively apart ?g"
    unfolding g by (rule trim_apart) (rule replaceRuns_apart)
  have lead: "\<not> prefix ''-'' ?g"
    unfolding g by (rule trim_no_lead) (rule replaceRuns_apart)
  have trail: "\<not> suffix ''-'' ?g"
    unfolding g by (rule trim_no_trail) (rule replaceRuns_apart)
  have idem: "getRepoSlug toLowerCase ?g = ?g"
    if lower: "\<forall>t. set t \<subseteq> set ''abcdefghijklmnopqrstuvwxyz0123456789-'' \<longrightarrow>
                 toLowerCase t = t"
  proof -
    from chars lower have "toLowerCase ?g = ?g" by (simp only: slug_alphabet)
    then have "getRepoSlug toLowerCase ?g = trimHyphens (replaceRuns ?g)"
      by (simp add: getRepoSlug_def)
    also have "replaceRuns ?g = ?g" using chars single by (rule replaceRuns_fixed)
    also have "trimHyphens ?g = ?g" using lead trail by (rule trim_fixed)
    finally show ?thesis .
  qed
  from chars have "set ?g \<subseteq> set ''abcdefghijklmnopqrstuvwxyz0123456789-''"
    by (simp only: slug_alphabet)
  with lead trail idem apart_no_pair [OF single] show ?thesis
    by blast
qed

theorem getRepoSlug_shape_witness:
  "getRepoSlug (map asciiLower) ''__E-Learning  Platform (v2)!'' = ''e-learning-platform-v2'' \<and>
   getRepoSlug (map asciiLower)
       (getRepoSlug (map asciiLower) ''__E-Learning  Platform (v2)!'') =
     getRepoSlug (map asciiLower) ''__E-Learning  Platform (v2)!'' \<and>
   \<not> sublist ''--'' (getRepoSlug (map asciiLower) ''__E-Learning  Platform (v2)!'')"
proof -
  have lower: "\<forall>t. set t \<subseteq> set ''abcdefghijklmnopqrstuvwxyz0123456789-'' \<longrightarrow>
      map asciiLower t = t"
    by (auto intro!: map_idI asciiLower_fixed)
  have slug: "getRepoSlug (map asciiLower) ''__E-Learning  Platform (v2)!'' =
      ''e-learning-platform-v2''"
    by (simp add: getRepoSlug_def trimHyphens_def alnum_def asciiLower_def)
  from getRepoSlug_shape [of "map asciiLower" "''__E-Learning  Platform (v2)!''"] lower slug
  show ?thesis by blast
qed

section \<open>Properties of the rendering\<close>

lemma foldl_plus:
  "foldl (\<lambda>sum r. sum + f r) a xs = a + sum_list (map f xs)" for a :: int
  by (induction xs arbitrary: a) simp_all

lemma or0_case: "or0 count = (case count of None \<Rightarrow> 0 | Some n \<Rightarrow> n)"
  by (simp add: or0_def split: option.splits)

lemma totalStars_sum:
  "totalStars repoData =
     (\<Sum>r\<leftarrow>repoData. case stargazers_count r of None \<Rightarrow> 0 | Some n \<Rightarrow> n)"
  by (simp add: totalStars_def foldl_plus or0_case)

lemma totalForks_sum:
  "totalForks repoData = (\<Sum>r\<leftarrow>repoData. case forks_count r of None \<Rightarrow> 0 | Some n \<Rightarrow> n)"
  by (simp add: totalForks_def foldl_plus or0_case)

lemma totalStars_append: "totalStars (xs @ ys) = totalStars xs + totalStars ys"
  by (simp add: totalStars_sum)

lemma updateProjectStats_container:
  "githubStats (snd (updateProjectStats toLowerCase repoData p)) = githubStats p"
  by (simp add: updateProjectStats_def split: prod.splits)

lemma slug_adidas: "getRepoSlug (map asciiLower) ''Adidas'' = ''adidas''"
  by (simp add: getRepoSlug_def trimHyphens_def alnum_def asciiLower_def)

lemma slug_portfolio: "getRepoSlug (map asciiLower) ''Portfolio'' = ''portfolio''"
  by (simp add: getRepoSlug_def trimHyphens_def alnum_def asciiLower_def)

lemma render_mixed:
  "fst (updateProjectStats (map asciiLower) [adidas_repo, portfolio_repo] sample_page) = None"
  by (simp add: updateProjectStats_def renderCard_def slug_adidas slug_portfolio
      adidas_repo_def portfolio_repo_def sample_page_def Let_def addLastUpdatedInfo_def
      split: prod.splits)

text \<open>
  C6. \<^verbatim>\<open>updateGitHubStats\<close> writes into the stats container, when the page has one, the
  sum of the star counts and the sum of the fork counts of the array it is given, a
  missing count adding 0, together with the length of the array. And whenever
  \<^verbatim>\<open>initGitHubIntegration\<close> gets through \<^verbatim>\<open>updateProjectStats\<close> without an exception,
  the container shows these sums of the array that this run's \<^verbatim>\<open>fetchGitHubRepos\<close>
  returned.
\<close>

theorem totals_are_sums:
  "githubStats (updateGitHubStats repoData p) =
     map_option (\<lambda>statsContainer.
        StatsMarkup (\<Sum>r\<leftarrow>repoData. case stargazers_count r of None \<Rightarrow> 0 | Some n \<Rightarrow> n)
                    (\<Sum>r\<leftarrow>repoData. case forks_count r of None \<Rightarrow> 0 | Some n \<Rightarrow> n)
                    (length repoData)) (githubStats p) \<and>
   (fst (updateProjectStats toLowerCase (fst (fetchGitHubRepos net now repositories g)) p) = None
    \<longrightarrow>
    githubStats (snd (initGitHubIntegration toLowerCase net now (g, p))) =
      map_option (\<lambda>statsContainer.
        StatsMarkup
          (\<Sum>r\<leftarrow>fst (fetchGitHubRepos net now repositories g).
              case stargazers_count r of None \<Rightarrow> 0 | Some n \<Rightarrow> n)
          (\<Sum>r\<leftarrow>fst (fetchGitHubRepos net now repositories g).
              case forks_count r of None \<Rightarrow> 0 | Some n \<Rightarrow> n)
          (length (fst (fetchGitHubRepos net now repositories g)))) (githubStats p))"
proof -
  have render: "githubStats (updateGitHubStats rs q) =
     map_option (\<lambda>statsContainer.
        StatsMarkup (\<Sum>r\<leftarrow>rs. case stargazers_count r of None \<Rightarrow> 0 | Some n \<Rightarrow> n)
                    (\<Sum>r\<leftarrow>rs. case forks_count r of None \<Rightarrow> 0 | Some n \<Rightarrow> n)
                    (length rs)) (githubStats q)" for rs q
    by (simp add: updateGitHubStats_def totalStars_sum totalForks_sum split: option.splits)
  have "githubStats (snd (initGitHubIntegration toLowerCase net now (g, p))) =
          githubStats (updateGitHubStats (fst (fetchGitHubRepos net now repositories g))
             (snd (updateProjectStats toLowerCase
                (fst (fetchGitHubRepos net now repositories g)) p)))"
    if "fst (updateProjectStats toLowerCase
               (fst (fetchGitHubRepos net now repositories g)) p) = None"
    using that by (auto simp: initGitHubIntegration_def split: prod.splits option.splits)
  then show ?thesis
    by (simp add: render updateProjectStats_container)
qed

theorem totals_are_sums_witness:
  "fst (updateProjectStats (map asciiLower)
         (fst (fetchGitHubRepos mixed_net 1700000000000 repositories App_github))
         sample_page) = None \<and>
   githubStats (snd (initGitHubIntegration (map asciiLower) mixed_net 1700000000000
                       (App_github, sample_page))) =
     Some (StatsMarkup 5 3 2)"
proof -
  have through: "fst (updateProjectStats (map asciiLower)
         (fst (fetchGitHubRepos mixed_net 1700000000000 repositories App_github))
         sample_page) = None"
    by (simp only: fetched_mixed render_mixed)
  from totals_are_sums [of "[]" sample_page "map asciiLower" mixed_net 1700000000000 App_github]
    through
  have "githubStats (snd (initGitHubIntegration (map asciiLower) mixed_net 1700000000000
                       (App_github, sample_page))) =
      map_option (\<lambda>statsContainer.
        StatsMarkup
          (\<Sum>r\<leftarrow>fst (fetchGitHubRepos mixed_net 1700000000000 repositories App_github).
              case stargazers_count r of None \<Rightarrow> 0 | Some n \<Rightarrow> n)
          (\<Sum>r\<leftarrow>fst (fetchGitHubRepos mixed_net 1700000000000 repositories App_github).
              case forks_count r of None \<Rightarrow> 0 | Some n \<Rightarrow> n)
          (length (fst (fetchGitHubRepos mixed_net 1700000000000 repositories App_github))))
        (githubStats sample_page)"
    by blast
  also have "\<dots> = Some (StatsMarkup 5 3 2)"
    unfolding fetched_mixed by (simp add: adidas_repo_def portfolio_repo_def sample_page_def)
  finally show ?thesis using through by blast
qed

text \<open>
  A loop that ends without an exception has rendered the repository at index \<open>j\<close> into
  the card at index \<open>j\<close>, and has left the cards below its starting index alone.
\<close>

lemma forEachRepo_cards:
  "forEachRepo toLowerCase rs k cards = (None, cards') \<Longrightarrow>
   length cards' = length cards \<and>
   (\<forall>j < length cards. j < k \<longrightarrow> cards' ! j = cards ! j) \<and>
   (\<forall>j < length cards. k \<le> j \<and> j < k + length rs \<longrightarrow>
       renderCard toLowerCase (rs ! (j - k)) (cards ! j) = Inr (cards' ! j))"
proof (induction rs arbitrary: k cards)
  case Nil
  then show ?case by auto
next
  case (Cons r rest)
  show ?case
  proof (cases "k \<ge> length cards")
    case True
    with Cons.prems have "forEachRepo toLowerCase rest (Suc k) cards = (None, cards')" by simp
    from Cons.IH [OF this] True show ?thesis by simp
  next
    case False
    with Cons.prems obtain c where c: "renderCard toLowerCase r (cards ! k) = Inr c"
      and run: "forEachRepo toLowerCase rest (Suc k) (cards[k := c]) = (None, cards')"
      by (auto split: sum.splits)
    from Cons.IH [OF run]
    have len: "length cards' = length cards"
      and before: "\<forall>j < length cards. j < Suc k \<longrightarrow> cards' ! j = cards[k := c] ! j"
      and after: "\<forall>j < length cards. Suc k \<le> j \<and> j < Suc k + length rest \<longrightarrow>
          renderCard toLowerCase (rest ! (j - Suc k)) (cards[k := c] ! j) = Inr (cards' ! j)"
      by simp_all
    have "renderCard toLowerCase ((r # rest) ! (j - k)) (cards ! j) = Inr (cards' ! j)"
      if j: "j < length cards" "k \<le> j" "j < k + length (r # rest)" for j
    proof (cases "j = k")
      case True
      with before j False have "cards' ! k = c" by simp
      with c True show ?thesis by simp
    next
      case False
      with j have "Suc k \<le> j" "j < Suc k + length rest" by simp_all
      with after j
      have "renderCard toLowerCase (rest ! (j - Suc k)) (cards[k := c] ! j) = Inr (cards' ! j)"
        by blast
      moreover from \<open>Suc k \<le> j\<close> have "(r # rest) ! (j - k) = rest ! (j - Suc k)"
        by (simp add: nth_Cons')
      ultimately show ?thesis using False by simp
    qed
    moreover have "cards' ! j = cards ! j" if "j < length cards" "j < k" for j
      using before that by simp
    ultimately show ?thesis using len by blast
  qed
qed

lemma addLastUpdatedInfo_byId: "byId (addLastUpdatedInfo c u) = byId c"
  by (simp add: addLastUpdatedInfo_def split: option.splits)

lemma renderCard_stars:
  assumes "renderCard toLowerCase r c = Inr c'" and "name r = Some nm"
    and "byId c (getRepoSlug toLowerCase nm @ ''-stars'') = Some el"
  shows "byId c' (getRepoSlug toLowerCase nm @ ''-stars'') =
           Some (animateStatNumber el (or0 (stargazers_count r)))"
  using assms
  by (auto simp: renderCard_def Let_def addLastUpdatedInfo_byId split: if_splits option.splits)

lemma renderCard_forks:
  assumes "renderCard toLowerCase r c = Inr c'" and "name r = Some nm"
    and "byId c (getRepoSlug toLowerCase nm @ ''-forks'') = Some el"
  shows "byId c' (getRepoSlug toLowerCase nm @ ''-forks'') =
           Some (animateStatNumber el (or0 (forks_count r)))"
  using assms
  by (auto simp: renderCard_def Let_def addLastUpdatedInfo_byId split: if_splits option.splits)

text \<open>
  When the loop ends without an exception and the card at the index of a repository
  holds the star or the fork element named after that repository, the element is
  animated towards the repository's count, or towards 0 when the count is missing.
\<close>

lemma rendered_stars:
  assumes i: "i < length repoData" "i < length (projectCards p)"
    and nm: "name (repoData ! i) = Some nm"
    and rendered: "updateProjectStats toLowerCase repoData p = (None, p')"
    and el: "byId (projectCards p ! i) (getRepoSlug toLowerCase nm @ ''-stars'') = Some el"
  shows "byId (projectCards p' ! i) (getRepoSlug toLowerCase nm @ ''-stars'') =
           Some (animateStatNumber el (or0 (stargazers_count (repoData ! i))))"
proof -
  from rendered
  have run: "forEachRepo toLowerCase repoData 0 (projectCards p) = (None, projectCards p')"
    by (auto simp: updateProjectStats_def split: prod.splits)
  from forEachRepo_cards [OF run] i
  have "renderCard toLowerCase (repoData ! i) (projectCards p ! i) = Inr (projectCards p' ! i)"
    by simp
  from renderCard_stars [OF this nm el] show ?thesis .
qed

lemma rendered_forks:
  assumes i: "i < length repoData" "i < length (projectCards p)"
    and nm: "name (repoData ! i) = Some nm"
    and rendered: "updateProjectStats toLowerCase repoData p = (None, p')"
    and el: "byId (projectCards p ! i) (getRepoSlug toLowerCase nm @ ''-forks'') = Some el"
  shows "byId (projectCards p' ! i) (getRepoSlug toLowerCase nm @ ''-forks'') =
           Some (animateStatNumber el (or0 (forks_count (repoData ! i))))"
proof -
  from rendered
  have run: "forEachRepo toLowerCase repoData 0 (projectCards p) = (None, projectCards p')"
    by (auto simp: updateProjectStats_def split: prod.splits)
  from forEachRepo_cards [OF run] i
  have "renderCard toLowerCase (repoData ! i) (projectCards p ! i) = Inr (projectCards p' ! i)"
    by simp
  from renderCard_forks [OF this nm el] show ?thesis .
qed

lemma animated_shows_target: "displayed (animateStatNumber el target) = Number target"
  by (simp add: displayed_def animateStatNumber_def)

lemma missing_count_is_zero: "or0 None = 0"
  by (simp add: or0_def)

lemma missing_stars_show_zero:
  assumes "i < length repoData" "i < length (projectCards p)"
    and "stargazers_count (repoData ! i) = None"
    and "name (repoData ! i) = Some nm"
    and "updateProjectStats toLowerCase repoData p = (None, p')"
    and "byId (projectCards p ! i) (getRepoSlug toLowerCase nm @ ''-stars'') = Some el"
  shows "map_option displayed
           (byId (projectCards p' ! i) (getRepoSlug toLowerCase nm @ ''-stars'')) =
           Some (Number 0)"
  using rendered_stars [OF assms(1,2,4,5,6)] assms(3)
  by (simp add: animated_shows_target missing_count_is_zero)

lemma missing_forks_show_zero:
  assumes "i < length repoData" "i < length (projectCards p)"
    and "forks_count (repoData ! i) = None"
    and "name (repoData ! i) = Some nm"
    and "updateProjectStats toLowerCase repoData p = (None, p')"
    and "byId (projectCards p ! i) (getRepoSlug toLowerCase nm @ ''-forks'') = Some el"
  shows "map_option displayed
           (byId (projectCards p' ! i) (getRepoSlug toLowerCase nm @ ''-forks'')) =
           Some (Number 0)"
  using rendered_forks [OF assms(1,2,4,5,6)] assms(3)
  by (simp add: animated_shows_target missing_count_is_zero)

text \<open>A repository without a star count adds nothing to the total of the stars.\<close>

lemma missing_stars_add_nothing:
  assumes "i < length repoData" and "stargazers_count (repoData ! i) = None"
  shows "totalStars repoData = totalStars (take i repoData @ drop (Suc i) repoData)"
proof -
  from assms(1) have "repoData = take i repoData @ repoData ! i # drop (Suc i) repoData"
    by (simp add: id_take_nth_drop)
  then have "totalStars repoData =
      totalStars (take i repoData) + totalStars (repoData ! i # drop (Suc i) repoData)"
    using totalStars_append by metis
  also have "totalStars (repoData ! i # drop (Suc i) repoData) =
      totalStars (drop (Suc i) repoData)"
    using assms(2) by (simp add: totalStars_sum)
  finally show ?thesis by (simp add: totalStars_append)
qed

lemma slugs_listed:
  "map (getRepoSlug (map asciiLower)) repositories =
     [''fifa-world-cup-qatar-2022'', ''adidas'', ''portfolio'', ''datasets'',
      ''e-learning-platform'']"
  by (simp add: repositories_def getRepoSlug_def trimHyphens_def alnum_def asciiLower_def)

lemma fetched_full:
  "fst (fetchGitHubRepos full_net 1700000000000 repositories App_github) =
     map bare_repo repositories"
  by (simp add: fetch_eval full_net_def)

lemma fetched_gappy:
  "fst (fetchGitHubRepos gappy_net 1700000000000 repositories App_github) =
     map bare_repo (tl repositories)"
  by (simp add: fetch_eval gappy_net_def full_net_def)

lemma slug_each:
  "getRepoSlug (map asciiLower) ''Fifa-World-Cup-Qatar-2022'' = ''fifa-world-cup-qatar-2022''"
  "getRepoSlug (map asciiLower) ''datasets'' = ''datasets''"
  "getRepoSlug (map asciiLower) ''E-learning-platform'' = ''e-learning-platform''"
  using slugs_listed by (simp_all add: repositories_def)

lemmas render_eval = updateProjectStats_def renderCard_def bare_repo_def listed_page_def
  stat_card_def repositories_def slug_each slug_adidas slug_portfolio Let_def
  addLastUpdatedInfo_def animateStatNumber_def or0_def

lemma rendered_full:
  "map_option displayed
     (byId (projectCards (snd (updateProjectStats (map asciiLower)
         (map bare_repo repositories) listed_page)) ! 2) ''portfolio-stars'') = Some (Number 0)"
  "map_option displayed
     (byId (projectCards (snd (updateProjectStats (map asciiLower)
         (map bare_repo repositories) listed_page)) ! 2) ''portfolio-forks'') = Some (Number 0)"
  "fst (updateProjectStats (map asciiLower) (map bare_repo repositories) listed_page) = None"
  by (simp_all add: render_eval displayed_def stat_def)

lemma rendered_gappy:
  "map_option displayed
     (byId (projectCards (snd (updateProjectStats (map asciiLower)
         (map bare_repo (tl repositories)) listed_page)) ! 2) ''portfolio-stars'') =
     Some (Text ''12'')"
  "map_option displayed
     (byId (projectCards (snd (updateProjectStats (map asciiLower)
         (map bare_repo (tl repositories)) listed_page)) ! 2) ''portfolio-forks'') =
     Some (Text ''7'')"
  "byId (projectCards (snd (updateProjectStats (map asciiLower)
         (map bare_repo (tl repositories)) listed_page)) ! 1) ''portfolio-stars'' = None"
  "fst (updateProjectStats (map asciiLower) (map bare_repo (tl repositories)) listed_page) = None"
  by (simp_all add: render_eval displayed_def stat_def)

lemma updateGitHubStats_cards: "projectCards (updateGitHubStats rs p) = projectCards p"
  by (simp add: updateGitHubStats_def split: option.splits)

lemma init_rendered:
  assumes "fst (updateProjectStats toLowerCase (fst (fetchGitHubRepos net now repositories g)) p)
             = None"
  shows "snd (initGitHubIntegration toLowerCase net now (g, p)) =
           updateGitHubStats (fst (fetchGitHubRepos net now repositories g))
             (snd (updateProjectStats toLowerCase
                (fst (fetchGitHubRepos net now repositories g)) p))"
  using assms by (auto simp: initGitHubIntegration_def split: prod.splits option.splits)

text \<open>
  C7. A repository whose response has no \<^verbatim>\<open>stargazers_count\<close> is to show 0 in its star
  element, and a missing \<^verbatim>\<open>forks_count\<close> 0 in its fork element. Take the page with one
  card for each listed repository and responses that carry a name and no count. When
  all five requests succeed, the star and the fork element of Portfolio show 0. When
  the first request is answered by 404 and the other four succeed as before, the array
  has four entries and Portfolio stands at index 1; the loop looks for its elements in
  the card at index 1, which is the card of Adidas and has none of them, so nothing is
  written: the star and the fork element of Portfolio, in the card at index 2, keep
  their static texts. The container shows the totals 0 and 0 of the four repositories.
\<close>

theorem failed_request_shifts_cards:
  "fst (fetchGitHubRepos full_net 1700000000000 repositories App_github) ! 2 =
     bare_repo ''Portfolio'' \<and>
   stargazers_count (bare_repo ''Portfolio'') = None \<and>
   forks_count (bare_repo ''Portfolio'') = None \<and>
   map_option displayed
     (byId (projectCards (snd (initGitHubIntegration (map asciiLower) full_net 1700000000000
                                 (App_github, listed_page))) ! 2) ''portfolio-stars'') =
     Some (Number 0) \<and>
   map_option displayed
     (byId (projectCards (snd (initGitHubIntegration (map asciiLower) full_net 1700000000000
                                 (App_github, listed_page))) ! 2) ''portfolio-forks'') =
     Some (Number 0) \<and>
   fst (fetchGitHubRepos gappy_net 1700000000000 repositories App_github) ! 1 =
     bare_repo ''Portfolio'' \<and>
   byId (projectCards (snd (initGitHubIntegration (map asciiLower) gappy_net 1700000000000
                              (App_github, listed_page))) ! 1) ''portfolio-stars'' = None \<and>
   map_option displayed
     (byId (projectCards (snd (initGitHubIntegration (map asciiLower) gappy_net 1700000000000
                                 (App_github, listed_page))) ! 2) ''portfolio-stars'') =
     Some (Text ''12'') \<and>
   map_option displayed
     (byId (projectCards (snd (initGitHubIntegration (map asciiLower) gappy_net 1700000000000
                                 (App_github, listed_page))) ! 2) ''portfolio-forks'') =
     Some (Text ''7'') \<and>
   githubStats (snd (initGitHubIntegration (map asciiLower) gappy_net 1700000000000
                       (App_github, listed_page))) = Some (StatsMarkup 0 0 4)"
proof -
  let ?full = "fst (fetchGitHubRepos full_net 1700000000000 repositories App_github)"
  let ?gappy = "fst (fetchGitHubRepos gappy_net 1700000000000 repositories App_github)"
  have full: "snd (initGitHubIntegration (map asciiLower) full_net 1700000000000
        (App_github, listed_page)) =
      updateGitHubStats ?full (snd (updateProjectStats (map asciiLower) ?full listed_page))"
    by (rule init_rendered) (simp only: fetched_full rendered_full)
  have gappy: "snd (initGitHubIntegration (map asciiLower) gappy_net 1700000000000
        (App_github, listed_page)) =
      updateGitHubStats ?gappy (snd (updateProjectStats (map asciiLower) ?gappy listed_page))"
    by (rule init_rendered) (simp only: fetched_gappy rendered_gappy)
  have at_full: "?full ! 2 = bare_repo ''Portfolio''"
    unfolding fetched_full by (simp add: repositories_def)
  have at_gappy: "?gappy ! 1 = bare_repo ''Portfolio''"
    unfolding fetched_gappy by (simp add: repositories_def)
  have missing: "stargazers_count (bare_repo ''Portfolio'') = None"
    "forks_count (bare_repo ''Portfolio'') = None"
    by (simp_all add: bare_repo_def)
  have totals: "githubStats (updateGitHubStats ?gappy
      (snd (updateProjectStats (map asciiLower) ?gappy listed_page))) =
      Some (StatsMarkup 0 0 4)"
    unfolding fetched_gappy
    by (simp add: updateGitHubStats_def updateProjectStats_container totalStars_sum
        totalForks_sum bare_repo_def repositories_def listed_page_def)
  show ?thesis
    unfolding full gappy updateGitHubStats_cards
    using at_full at_gappy missing totals rendered_full(1,2) rendered_gappy(1,2,3)
    by (simp only: fetched_full fetched_gappy simp_thms)
qed

text \<open>
  When every request of a run fails, \<^verbatim>\<open>fetchGitHubRepos\<close> returns the empty array
  without an exception, the two renderers run on it, and the \<^verbatim>\<open>catch\<close> block with
  \<^verbatim>\<open>hideGitHubStats\<close> is not entered: the cards stay as they are and the container
  gets three zeros.
\<close>

lemma total_failure_skips_fallback:
  assumes stale: "\<not> fresh g now"
    and failed: "\<forall>r \<in> set repositories.
                   request_failed (net (''https://api.github.com/repos/karimhelal/'' @ r))"
  shows "snd (initGitHubIntegration toLowerCase net now (g, p)) = updateGitHubStats [] p"
proof -
  from failed have "filter (\<lambda>result. result \<noteq> None)
      (map (snd \<circ> fetch_repo net) repositories) = []"
    by (simp add: filter_empty_conv failed_settles_null)
  with stale have "fst (fetchGitHubRepos net now repositories g) = []"
    by (simp add: fetch_miss stale_lookup)
  then show ?thesis
    by (auto simp: initGitHubIntegration_def updateProjectStats_def split: prod.splits)
qed

text \<open>
  C3. With no connection at all, on a page that has just been loaded, the run returns
  the empty array and the star element of the second card keeps its text; the hyphen
  that \<^verbatim>\<open>hideGitHubStats\<close> would put there is not written, because the fallback is not
  reached. The container shows the totals 0, 0 and 0.
\<close>

theorem total_failure_keeps_stat_text:
  "fst (fetchGitHubRepos offline 1700000000000 repositories App_github) = [] \<and>
   map_option textContent
     (byId (projectCards (snd (initGitHubIntegration (map asciiLower) offline 1700000000000
                                 (App_github, sample_page))) ! 1) ''portfolio-stars'') =
     Some (Text ''0'') \<and>
   map_option displayed
     (byId (projectCards (snd (initGitHubIntegration (map asciiLower) offline 1700000000000
                                 (App_github, sample_page))) ! 1) ''portfolio-forks'') =
     Some (Text ''0'') \<and>
   githubStats (snd (initGitHubIntegration (map asciiLower) offline 1700000000000
                       (App_github, sample_page))) = Some (StatsMarkup 0 0 0) \<and>
   map_option textContent
     (byId (projectCards (hideGitHubStats sample_page) ! 1) ''portfolio-stars'') =
     Some (Text ''-'')"
proof -
  have failed: "\<forall>r \<in> set repositories.
      request_failed (offline (''https://api.github.com/repos/karimhelal/'' @ r))"
    by (simp add: request_failed_def offline_def)
  have run: "snd (initGitHubIntegration (map asciiLower) offline 1700000000000
      (App_github, sample_page)) = updateGitHubStats [] sample_page"
    using stale_initially failed by (rule total_failure_skips_fallback)
  have empty: "fst (fetchGitHubRepos offline 1700000000000 repositories App_github) = []"
    by (simp add: fetch_eval offline_def)
  have shown: "updateGitHubStats [] sample_page =
      sample_page\<lparr>githubStats := Some (StatsMarkup 0 0 0)\<rparr>"
    by (simp add: updateGitHubStats_def totalStars_def totalForks_def sample_page_def)
  have kept: "map_option textContent
      (byId (projectCards sample_page ! 1) ''portfolio-stars'') = Some (Text ''0'')"
    and kept': "map_option displayed
      (byId (projectCards sample_page ! 1) ''portfolio-forks'') = Some (Text ''0'')"
    by (simp_all add: sample_page_def stat_def displayed_def)
  have hidden: "map_option textContent
      (byId (projectCards (hideGitHubStats sample_page) ! 1) ''portfolio-stars'') =
      Some (Text ''-'')"
    by (simp add: hideGitHubStats_def hideStat_def sample_page_def stat_def suffix_def)
  from empty kept kept' hidden show ?thesis
    unfolding run shown by simp
qed

end
